theory Spec2Isabelle
  imports Main
begin

section \<open>Data model\<close>

text \<open>
  The two source files are asynchronous TypeScript procedures whose whole behaviour is the
  order in which they call their collaborators (git, the prompt, the spinner, the logger,
  the GitHub client) and the exception or normal return they end with. The embedding is an
  explicit state-passing one: every call of a collaborator appends an \<open>event\<close> to a
  trace, every \<open>await\<close> that may reject returns \<open>error + 'a\<close>, and the answers of the
  collaborators are fields of a \<open>world\<close> record.
\<close>

subsection \<open>Values of the source\<close>

text \<open>\<open>ConflictingFiles\<close> of \<open>../git\<close>: an array of \<open>{ absolute, relative }\<close>.\<close>

record ConflictingFile =
  absolute :: string
  relative :: string

datatype PullRequestState = OPEN | MERGED | CLOSED

record TargetPullRequestState =
  state :: PullRequestState
  branch :: string

record SourceCommit =
  sha :: string
  message :: string

record Commit =
  sourceCommit :: SourceCommit
  targetPullRequestStates :: "TargetPullRequestState list"

record CommitAuthor =
  name :: string
  email :: string

text \<open>An element of \<open>commitsWithoutBackports\<close>; only \<open>formatted\<close> is read.\<close>

record CommitWithoutBackport =
  formatted :: string

subsection \<open>Exceptions\<close>

text \<open>
  \<open>BackportError\<close> is thrown with the code \<open>merge-conflict-exception\<close> (carrying
  \<open>commitsWithoutBackports\<close> and \<open>conflictingFiles\<close>) and with the code
  \<open>abort-conflict-resolution-exception\<close>; the retry ceiling throws a plain \<open>Error\<close>
  with a message. \<open>Thrown\<close> stands for any other exception a collaborator raises.
\<close>

datatype error =
    MergeConflictException "CommitWithoutBackport list" "string list"
  | AbortConflictResolutionException
  | Error string
  | Thrown string

subsection \<open>Observable calls\<close>

datatype spinner = CherrypickSpinner | AutoResolveSpinner | LabelSpinner

datatype event =
    OraStart spinner bool string
  | OraSucceed spinner
  | OraFail spinner
  | Cherrypick string "TargetPullRequestState option" CommitAuthor
  | AutoFixConflicts "string list" string string
  | GetCommitsWithoutBackports "string list"
  | ConsoleLog string
  | SpawnPromise string "string list" string
  | ConfirmPrompt string
  | GetConflictingFiles
  | GetUnstagedFiles
  | CommitChanges CommitAuthor
  | LoggerInfo string
  | LoggerError string error
  | NewOctokit string string
  | AddLabels string string nat "string list"

text \<open>
  The state threaded through a run: the calls made so far, and how many prompts and how
  many working-tree status queries have been answered (the index of the next answer).
\<close>

record sys =
  trace :: "event list"
  confirms :: nat
  queries :: nat

definition emit :: "event \<Rightarrow> sys \<Rightarrow> sys" where
  "emit e s = s\<lparr>trace := trace s @ [e]\<rparr>"

subsection \<open>Options and collaborators\<close>

text \<open>
  The fields of \<open>ValidConfigOptions\<close> that the two files read. \<open>autoFixConflicts\<close> is
  an optional callback taking \<open>files\<close>, \<open>directory\<close> and \<open>targetBranch\<close> (and the
  logger, which is not modelled as an argument).
\<close>

record ValidConfigOptions =
  interactive :: bool
  autoFixConflicts :: "(string list \<Rightarrow> string \<Rightarrow> string \<Rightarrow> error + bool) option"
  editor :: "string option"
  cwd :: string
  githubApiBaseUrlV3 :: string
  repoName :: string
  repoOwner :: string
  accessToken :: string

text \<open>
  The collaborators imported from other modules, none of which is part of the two files.
  Each is taken as a parameter: what it returns (or throws) when called. The prompt and the
  status queries are called once per round, so their answers are indexed by the number of
  earlier calls. \<open>getStatus k\<close> is the outcome of the \<open>k\<close>-th
  \<open>Promise.all([getConflictingFiles, getUnstagedFiles])\<close>: both lists, or the rejection.
\<close>

record world =
  getFirstLine :: "string \<Rightarrow> string"
  getCommitAuthor :: "ValidConfigOptions \<Rightarrow> Commit \<Rightarrow> CommitAuthor"
  getRepoPath :: "ValidConfigOptions \<Rightarrow> string"
  cherrypick :: "error + (ConflictingFile list \<times> string list \<times> bool)"
  getCommitsWithoutBackports :: "string list \<Rightarrow> error + CommitWithoutBackport list"
  spawnPromise :: "error + unit"
  confirmPrompt :: "nat \<Rightarrow> error + bool"
  getStatus :: "nat \<Rightarrow> error + (ConflictingFile list \<times> string list)"
  commitChanges :: "error + unit"
  newOctokit :: "error + unit"
  addLabels :: "error + unit"

section \<open>String helpers\<close>

definition nl :: string where
  "nl = [CHR 0x0A]"

text \<open>\<open>Array.prototype.join\<close>.\<close>

fun join :: "string \<Rightarrow> string list \<Rightarrow> string" where
  "join sep [] = []"
| "join sep [x] = x"
| "join sep (x # y # ys) = x @ sep @ join sep (y # ys)"

text \<open>The decimal rendering of a number in a template string.\<close>

fun string_of_nat :: "nat \<Rightarrow> string" where
  "string_of_nat n =
     (if n < 10 then [char_of (48 + n)]
      else string_of_nat (n div 10) @ [char_of (48 + n mod 10)])"

text \<open>lodash \<open>difference\<close> and \<open>isEmpty\<close> on arrays.\<close>

definition difference :: "'a list \<Rightarrow> 'a list \<Rightarrow> 'a list" where
  "difference xs ys = filter (\<lambda>x. x \<notin> set ys) xs"

definition isEmpty :: "'a list \<Rightarrow> bool" where
  "isEmpty xs = (xs = [])"

section \<open>The interactive resolution loop\<close>

definition MAX_RETRIES :: nat where
  "MAX_RETRIES = 100"

definition divider :: string where
  "divider = nl @ ''----------------------------------------'' @ nl"

text \<open>The text handed to \<open>confirmPrompt\<close>; \<open>chalk\<close> colouring is the identity here.\<close>

definition promptText :: "string list \<Rightarrow> string list \<Rightarrow> string" where
  "promptText conflictingFiles unstagedFiles =
     (let hasUnstagedFiles = \<not> isEmpty (difference unstagedFiles conflictingFiles);
          hasConflictingFiles = \<not> isEmpty conflictingFiles;
          header = ''Fix the following conflicts manually:'';
          conflictSection =
            (if hasConflictingFiles
             then ''Conflicting files:'' @ nl @ join nl (map (\<lambda>file. '' - '' @ file) conflictingFiles)
             else []);
          unstagedSection =
            (if hasUnstagedFiles
             then ''Unstaged files:'' @ nl @ join nl (map (\<lambda>file. '' - '' @ file) unstagedFiles)
             else [])
      in header @ nl @ nl @ conflictSection @ nl @ unstagedSection @ nl @ nl @
         ''Press ENTER when the conflicts are resolved and files are staged'')"

definition maxRetriesMessage :: string where
  "maxRetriesMessage = ''Maximum number of retries ('' @ string_of_nat MAX_RETRIES @ '') exceeded''"

text \<open>
  \<open>listConflictingAndUnstagedFiles\<close>. \<open>retries++ > MAX_RETRIES\<close> compares the value
  the counter had at entry and increments it afterwards.
\<close>

function listConflictingAndUnstagedFiles ::
  "world \<Rightarrow> nat \<Rightarrow> string list \<Rightarrow> string list \<Rightarrow> sys \<Rightarrow> (error + unit) \<times> sys" where
  "listConflictingAndUnstagedFiles w retries conflictingFiles unstagedFiles s =
     (if \<not> (\<not> isEmpty conflictingFiles) \<and> \<not> (\<not> isEmpty (difference unstagedFiles conflictingFiles))
      then (Inr (), s)
      else
        let s1 = (if retries > 0 then emit (ConsoleLog divider) s else s);
            s2 = (emit (ConfirmPrompt (promptText conflictingFiles unstagedFiles)) s1)
                   \<lparr>confirms := Suc (confirms s1)\<rparr>
        in (case confirmPrompt w (confirms s1) of
              Inl e \<Rightarrow> (Inl e, s2)
            | Inr didConfirm \<Rightarrow>
                if \<not> didConfirm then (Inl AbortConflictResolutionException, s2)
                else if retries > MAX_RETRIES then (Inl (Error maxRetriesMessage), s2)
                else
                  (let s3 = (emit GetUnstagedFiles (emit GetConflictingFiles s2))
                              \<lparr>queries := Suc (queries s2)\<rparr>
                   in (case getStatus w (queries s2) of
                         Inl e \<Rightarrow> (Inl e, s3)
                       | Inr (conflictingFiles', unstagedFiles') \<Rightarrow>
                           listConflictingAndUnstagedFiles w (retries + 1)
                             (map absolute conflictingFiles') unstagedFiles' s3))))"
  by pat_completeness auto
termination
  by (relation "measure (\<lambda>(w, retries, c, u, s). Suc MAX_RETRIES - retries)") auto

declare listConflictingAndUnstagedFiles.simps [simp del]

declare string_of_nat.simps [simp del]

section \<open>Cherry-pick and conflict handling\<close>

definition conflictsHeadline :: string where
  "conflictsHeadline = nl @ ''The commit could not be backported due to conflicts'' @ nl"

definition hintHeadline :: "string \<Rightarrow> string" where
  "hintHeadline targetBranch =
     ''Hint: Before fixing the conflicts manually you should consider backporting the following pull requests to ''
       @ [CHR 0x22] @ targetBranch @ [CHR 0x22] @ '':''"

text \<open>
  \<open>if (options.editor)\<close> tests a \<open>string | undefined\<close>: \<open>undefined\<close> and the empty
  string are falsy. The result is the string when it is truthy.
\<close>

definition truthyString :: "string option \<Rightarrow> string option" where
  "truthyString v = (case v of None \<Rightarrow> None | Some t \<Rightarrow> if t = [] then None else Some t)"

text \<open>
  Lines 116 to 166 of \<open>cherrypickAndHandleConflicts\<close>: what the function does once the
  conflicts are known not to have been fixed automatically. It is a definition of its own
  because the source reaches it on two paths (no resolver configured, resolver returned
  false).
\<close>

definition handleUnresolvedConflicts ::
  "world \<Rightarrow> ValidConfigOptions \<Rightarrow> string \<Rightarrow> string \<Rightarrow> ConflictingFile list \<Rightarrow> string list \<Rightarrow>
     sys \<Rightarrow> (error + unit) \<times> sys" where
  "handleUnresolvedConflicts w options targetBranch repoPath conflictingFiles unstagedFiles s =
     (let conflictingFilesRelative = take 50 (map relative conflictingFiles);
          s1 = emit (GetCommitsWithoutBackports conflictingFilesRelative) s
      in (case getCommitsWithoutBackports w conflictingFilesRelative of
            Inl e \<Rightarrow> (Inl e, s1)
          | Inr commitsWithoutBackports \<Rightarrow>
              if \<not> interactive options
              then (Inl (MergeConflictException commitsWithoutBackports conflictingFilesRelative), s1)
              else
                (let s2 = emit (ConsoleLog (''Please fix the conflicts in '' @ repoPath))
                            (emit (ConsoleLog conflictsHeadline) s1);
                     s3 = (if length commitsWithoutBackports > 0
                           then emit (ConsoleLog
                                  (join nl (map formatted commitsWithoutBackports) @ nl @ nl))
                                  (emit (ConsoleLog (hintHeadline targetBranch)) s2)
                           else s2)
                 in (case truthyString (editor options) of
                       None \<Rightarrow>
                         listConflictingAndUnstagedFiles w 0
                           (map absolute conflictingFiles) unstagedFiles s3
                     | Some ed \<Rightarrow>
                         (let s4 = emit (SpawnPromise ed [repoPath] (cwd options)) s3
                          in (case spawnPromise w of
                                Inl e \<Rightarrow> (Inl e, s4)
                              | Inr u \<Rightarrow>
                                  listConflictingAndUnstagedFiles w 0
                                    (map absolute conflictingFiles) unstagedFiles s4))))))"

definition cherrypickAndHandleConflicts ::
  "world \<Rightarrow> ValidConfigOptions \<Rightarrow> Commit \<Rightarrow> CommitAuthor \<Rightarrow> string \<Rightarrow> sys \<Rightarrow> (error + unit) \<times> sys" where
  "cherrypickAndHandleConflicts w options commit commitAuthor targetBranch s =
     (let mergedTargetPullRequest =
            find (\<lambda>pr. state pr = MERGED \<and> branch pr = targetBranch) (targetPullRequestStates commit);
          s1 = emit (Cherrypick (sha (sourceCommit commit)) mergedTargetPullRequest commitAuthor) s
      in (case cherrypick w of
            Inl e \<Rightarrow> (Inl e, emit (OraFail CherrypickSpinner) s1)
          | Inr (conflictingFiles, unstagedFiles, needsResolving) \<Rightarrow>
              if \<not> needsResolving then (Inr (), s1)
              else
                (let s2 = emit (OraFail CherrypickSpinner) s1;
                     repoPath = getRepoPath w options
                 in (case autoFixConflicts options of
                       None \<Rightarrow>
                         handleUnresolvedConflicts w options targetBranch repoPath
                           conflictingFiles unstagedFiles s2
                     | Some autoFix \<Rightarrow>
                         (let s3 = emit (AutoFixConflicts (map absolute conflictingFiles) repoPath targetBranch)
                                     (emit (OraStart AutoResolveSpinner (interactive options)
                                        ''Attempting to resolve conflicts automatically'') s2)
                          in (case autoFix (map absolute conflictingFiles) repoPath targetBranch of
                                Inl e \<Rightarrow> (Inl e, s3)
                              | Inr didAutoFix \<Rightarrow>
                                  if didAutoFix then (Inr (), emit (OraSucceed AutoResolveSpinner) s3)
                                  else handleUnresolvedConflicts w options targetBranch repoPath
                                         conflictingFiles unstagedFiles
                                         (emit (OraFail AutoResolveSpinner) s3)))))))"

text \<open>
  \<open>waitForCherrypick\<close>. The \<open>try\<close> around \<open>commitChanges\<close> marks the spinner failed
  and rethrows what it caught.
\<close>

definition waitForCherrypick ::
  "world \<Rightarrow> ValidConfigOptions \<Rightarrow> Commit \<Rightarrow> string \<Rightarrow> sys \<Rightarrow> (error + unit) \<times> sys" where
  "waitForCherrypick w options commit targetBranch s =
     (let spinnerText = ''Cherry-picking: '' @ getFirstLine w (message (sourceCommit commit));
          s1 = emit (OraStart CherrypickSpinner (interactive options) spinnerText) s;
          commitAuthor = getCommitAuthor w options commit
      in (case cherrypickAndHandleConflicts w options commit commitAuthor targetBranch s1 of
            (Inl e, s2) \<Rightarrow> (Inl e, s2)
          | (Inr u, s2) \<Rightarrow>
              (let s3 = emit (CommitChanges commitAuthor) s2
               in (case commitChanges w of
                     Inl e \<Rightarrow> (Inl e, emit (OraFail CherrypickSpinner) s3)
                   | Inr u' \<Rightarrow> (Inr (), emit (OraSucceed CherrypickSpinner) s3)))))"

section \<open>Adding labels to a pull request\<close>

definition addLabelsToPullRequest ::
  "world \<Rightarrow> ValidConfigOptions \<Rightarrow> nat \<Rightarrow> string list \<Rightarrow> sys \<Rightarrow> (error + unit) \<times> sys" where
  "addLabelsToPullRequest w options pullNumber labels s =
     (let text = ''Adding labels: '' @ join '', '' labels;
          s1 = emit (OraStart LabelSpinner (interactive options) text) (emit (LoggerInfo text) s);
          s2 = emit (NewOctokit (accessToken options) (githubApiBaseUrlV3 options)) s1;
          failed = (\<lambda>e s'. (Inr (),
                      emit (LoggerError (''Could not add labels to PR '' @ string_of_nat pullNumber) e)
                        (emit (OraFail LabelSpinner) s')))
      in (case newOctokit w of
            Inl e \<Rightarrow> failed e s2
          | Inr u \<Rightarrow>
              (let s3 = emit (AddLabels (repoOwner options) (repoName options) pullNumber labels) s2
               in (case addLabels w of
                     Inl e \<Rightarrow> failed e s3
                   | Inr u' \<Rightarrow> (Inr (), emit (OraSucceed LabelSpinner) s3)))))"

section \<open>Vocabulary of the properties\<close>

subsection \<open>Settlement, in the words of the specification\<close>

text \<open>
  The specification calls a snapshot settled when \<open>conflicting = \<emptyset>\<close> and
  \<open>unstaged \ conflicting = \<emptyset>\<close>. This definition follows those words, on sets; the
  loop above tests lodash \<open>isEmpty\<close> and \<open>difference\<close> on arrays.
\<close>

definition spec_settled :: "string list \<Rightarrow> string list \<Rightarrow> bool" where
  "spec_settled conflicting unstaged =
     (set conflicting = {} \<and> set unstaged - set conflicting = {})"

text \<open>
  The lists round \<open>k\<close> of a loop works on, when the loop was entered with \<open>c0\<close> and
  \<open>u0\<close> after \<open>q\<close> earlier status queries: the entry lists in round 0, the answer
  of the latest status query in every later round (\<open>None\<close> when that query rejected).
\<close>

fun snapshot ::
  "world \<Rightarrow> nat \<Rightarrow> string list \<Rightarrow> string list \<Rightarrow> nat \<Rightarrow> (string list \<times> string list) option" where
  "snapshot w q c0 u0 0 = Some (c0, u0)"
| "snapshot w q c0 u0 (Suc k) =
     (case getStatus w (q + k) of
        Inl e \<Rightarrow> None
      | Inr (conflictingFiles, unstagedFiles) \<Rightarrow> Some (map absolute conflictingFiles, unstagedFiles))"

definition settledAt :: "world \<Rightarrow> sys \<Rightarrow> string list \<Rightarrow> string list \<Rightarrow> nat \<Rightarrow> bool" where
  "settledAt w s c0 u0 k =
     (case snapshot w (queries s) c0 u0 k of
        None \<Rightarrow> False
      | Some (c, u) \<Rightarrow> spec_settled c u)"

text \<open>Round \<open>j\<close> shows an unsettled snapshot and the user confirms its prompt.\<close>

definition unsettledConfirmed :: "world \<Rightarrow> sys \<Rightarrow> string list \<Rightarrow> string list \<Rightarrow> nat \<Rightarrow> bool" where
  "unsettledConfirmed w s c0 u0 j =
     ((case snapshot w (queries s) c0 u0 j of
         None \<Rightarrow> False
       | Some (c, u) \<Rightarrow> \<not> spec_settled c u) \<and>
      confirmPrompt w (confirms s + j) = Inr True)"

text \<open>
  Some round \<open>k\<close> is settled, every round before it is unsettled and confirmed, and
  round \<open>k\<close> is either the entry round or reached while the counter, \<open>r\<close> at entry,
  was still allowed to grow.
\<close>

definition resolves :: "world \<Rightarrow> nat \<Rightarrow> string list \<Rightarrow> string list \<Rightarrow> sys \<Rightarrow> bool" where
  "resolves w r c0 u0 s =
     (\<exists>k\<in>{0..Suc MAX_RETRIES}.
        (k = 0 \<or> r + k \<le> Suc MAX_RETRIES) \<and> settledAt w s c0 u0 k \<and>
        (\<forall>j\<in>{0..<k}. unsettledConfirmed w s c0 u0 j))"

subsection \<open>States between the steps of a round\<close>

definition afterPrompt :: "nat \<Rightarrow> string list \<Rightarrow> string list \<Rightarrow> sys \<Rightarrow> sys" where
  "afterPrompt r c u s =
     (emit (ConfirmPrompt (promptText c u)) (if r > 0 then emit (ConsoleLog divider) s else s))
       \<lparr>confirms := Suc (confirms s)\<rparr>"

definition afterQuery :: "sys \<Rightarrow> sys" where
  "afterQuery s = (emit GetUnstagedFiles (emit GetConflictingFiles s))\<lparr>queries := Suc (queries s)\<rparr>"

subsection \<open>Reading a trace\<close>

definition prompts :: "event list \<Rightarrow> string list" where
  "prompts es = [t. ConfirmPrompt t \<leftarrow> es]"

definition editorLaunches :: "event list \<Rightarrow> (string \<times> string list \<times> string) list" where
  "editorLaunches es = [(ed, args, dir). SpawnPromise ed args dir \<leftarrow> es]"

definition hintLookups :: "event list \<Rightarrow> string list list" where
  "hintLookups es = [files. GetCommitsWithoutBackports files \<leftarrow> es]"

definition commitCalls :: "event list \<Rightarrow> CommitAuthor list" where
  "commitCalls es = [author. CommitChanges author \<leftarrow> es]"

text \<open>The calls the loop itself makes.\<close>

definition loopEvent :: "event \<Rightarrow> bool" where
  "loopEvent e =
     (case e of
        ConsoleLog t \<Rightarrow> True
      | ConfirmPrompt t \<Rightarrow> True
      | GetConflictingFiles \<Rightarrow> True
      | GetUnstagedFiles \<Rightarrow> True
      | _ \<Rightarrow> False)"

definition quiet :: "event list \<Rightarrow> bool" where
  "quiet es = (prompts es = [] \<and> editorLaunches es = [] \<and> hintLookups es = [])"

text \<open>
  The automatic resolver did not fix the conflicts: none is configured, or the configured
  one returned false.
\<close>

definition notAutoFixed :: "world \<Rightarrow> ValidConfigOptions \<Rightarrow> ConflictingFile list \<Rightarrow> string \<Rightarrow> bool" where
  "notAutoFixed w options conflictingFiles targetBranch =
     (case autoFixConflicts options of
        None \<Rightarrow> True
      | Some autoFix \<Rightarrow>
          autoFix (map absolute conflictingFiles) (getRepoPath w options) targetBranch = Inr False)"

text \<open>The state in which \<open>waitForCherrypick\<close> calls \<open>cherrypickAndHandleConflicts\<close>.\<close>

definition startedCherrypick :: "world \<Rightarrow> ValidConfigOptions \<Rightarrow> Commit \<Rightarrow> sys \<Rightarrow> sys" where
  "startedCherrypick w options commit s =
     emit (OraStart CherrypickSpinner (interactive options)
             (''Cherry-picking: '' @ getFirstLine w (message (sourceCommit commit)))) s"

subsection \<open>Concrete runs\<close>

definition s0 :: sys where
  "s0 = \<lparr>trace = [], confirms = 0, queries = 0\<rparr>"

definition dev :: CommitAuthor where
  "dev = \<lparr>name = ''dev'', email = ''dev@example.org''\<rparr>"

text \<open>A world in which nothing fails, the tree is clean and the user always confirms.\<close>

definition idleWorld :: world where
  "idleWorld =
     \<lparr>getFirstLine = (\<lambda>m. m),
      getCommitAuthor = (\<lambda>options commit. dev),
      getRepoPath = (\<lambda>options. ''/repo''),
      cherrypick = Inr ([], [], False),
      getCommitsWithoutBackports = (\<lambda>files. Inr []),
      spawnPromise = Inr (),
      confirmPrompt = (\<lambda>n. Inr True),
      getStatus = (\<lambda>q. Inr ([], [])),
      commitChanges = Inr (),
      newOctokit = Inr (),
      addLabels = Inr ()\<rparr>"

definition a_go :: ConflictingFile where
  "a_go = \<lparr>absolute = ''/repo/a.go'', relative = ''a.go''\<rparr>"

definition b_go :: ConflictingFile where
  "b_go = \<lparr>absolute = ''/repo/b.go'', relative = ''b.go''\<rparr>"

definition abc123 :: Commit where
  "abc123 = \<lparr>sourceCommit = \<lparr>sha = ''abc123'', message = ''Fix the parser''\<rparr>,
             targetPullRequestStates = []\<rparr>"

definition interactiveOptions :: ValidConfigOptions where
  "interactiveOptions =
     \<lparr>interactive = True, autoFixConflicts = None, editor = None, cwd = ''/home/dev'',
      githubApiBaseUrlV3 = ''https://api.github.com'', repoName = ''project'',
      repoOwner = ''owner'', accessToken = ''secret''\<rparr>"

text \<open>The cherry-pick leaves \<open>a.go\<close> and \<open>b.go\<close> in conflict; afterwards the tree is clean.\<close>

definition conflictWorld :: world where
  "conflictWorld = idleWorld\<lparr>cherrypick := Inr ([a_go, b_go], [], True)\<rparr>"

text \<open>Every status query still reports \<open>a.go\<close> in conflict, and the user always confirms.\<close>

definition stuckWorld :: world where
  "stuckWorld = idleWorld\<lparr>getStatus := (\<lambda>q. Inr ([a_go], []))\<rparr>"

text \<open>Seventy-five conflicting files, and a user who declines the first prompt.\<close>

definition files75 :: "ConflictingFile list" where
  "files75 =
     map (\<lambda>i. \<lparr>absolute = ''/repo/f'' @ string_of_nat i, relative = ''f'' @ string_of_nat i\<rparr>) [0..<75]"

definition decliningWorld :: world where
  "decliningWorld =
     idleWorld\<lparr>cherrypick := Inr (files75, [], True), confirmPrompt := (\<lambda>n. Inr False)\<rparr>"

section \<open>The loop, one round at a time\<close>

lemma settled_iff:
  "spec_settled c u = (isEmpty c \<and> isEmpty (difference u c))"
  by (auto simp: isEmpty_def difference_def spec_settled_def filter_empty_conv)

lemma loop_settled:
  "spec_settled c u \<Longrightarrow> listConflictingAndUnstagedFiles w r c u s = (Inr (), s)"
  by (subst listConflictingAndUnstagedFiles.simps) (simp add: settled_iff)

lemma loop_unsettled:
  "\<not> spec_settled c u \<Longrightarrow>
   listConflictingAndUnstagedFiles w r c u s =
     (case confirmPrompt w (confirms s) of
        Inl e \<Rightarrow> (Inl e, afterPrompt r c u s)
      | Inr didConfirm \<Rightarrow>
          if \<not> didConfirm then (Inl AbortConflictResolutionException, afterPrompt r c u s)
          else if r > MAX_RETRIES then (Inl (Error maxRetriesMessage), afterPrompt r c u s)
          else (case getStatus w (queries s) of
                  Inl e \<Rightarrow> (Inl e, afterQuery (afterPrompt r c u s))
                | Inr (cf, uf) \<Rightarrow>
                    listConflictingAndUnstagedFiles w (r + 1) (map absolute cf) uf
                      (afterQuery (afterPrompt r c u s))))"
  by (subst listConflictingAndUnstagedFiles.simps)
     (auto simp: settled_iff afterPrompt_def afterQuery_def emit_def Let_def split: sum.splits)

lemma afterPrompt_sel [simp]:
  "confirms (afterPrompt r c u s) = Suc (confirms s)"
  "queries (afterPrompt r c u s) = queries s"
  "trace (afterPrompt r c u s) =
     trace s @ (if r > 0 then [ConsoleLog divider] else []) @ [ConfirmPrompt (promptText c u)]"
  by (simp_all add: afterPrompt_def emit_def)

lemma afterQuery_sel [simp]:
  "confirms (afterQuery s) = confirms s"
  "queries (afterQuery s) = Suc (queries s)"
  "trace (afterQuery s) = trace s @ [GetConflictingFiles, GetUnstagedFiles]"
  by (simp_all add: afterQuery_def emit_def)

lemma loop_decline:
  assumes "\<not> spec_settled c u" "confirmPrompt w (confirms s) = Inr False"
  shows "listConflictingAndUnstagedFiles w r c u s =
           (Inl AbortConflictResolutionException, afterPrompt r c u s)"
  using assms(2) by (simp add: loop_unsettled [OF assms(1)])

section \<open>Reading traces\<close>

lemma prompts_simps [simp]:
  "prompts [] = []"
  "prompts (e # es) = (case e of ConfirmPrompt t \<Rightarrow> [t] | _ \<Rightarrow> []) @ prompts es"
  "prompts (xs @ ys) = prompts xs @ prompts ys"
  by (simp_all add: prompts_def)

lemma editorLaunches_simps [simp]:
  "editorLaunches [] = []"
  "editorLaunches (e # es) =
     (case e of SpawnPromise ed args dir \<Rightarrow> [(ed, args, dir)] | _ \<Rightarrow> []) @ editorLaunches es"
  "editorLaunches (xs @ ys) = editorLaunches xs @ editorLaunches ys"
  by (simp_all add: editorLaunches_def)

lemma hintLookups_simps [simp]:
  "hintLookups [] = []"
  "hintLookups (e # es) =
     (case e of GetCommitsWithoutBackports files \<Rightarrow> [files] | _ \<Rightarrow> []) @ hintLookups es"
  "hintLookups (xs @ ys) = hintLookups xs @ hintLookups ys"
  by (simp_all add: hintLookups_def)

lemma commitCalls_simps [simp]:
  "commitCalls [] = []"
  "commitCalls (e # es) = (case e of CommitChanges author \<Rightarrow> [author] | _ \<Rightarrow> []) @ commitCalls es"
  "commitCalls (xs @ ys) = commitCalls xs @ commitCalls ys"
  by (simp_all add: commitCalls_def)

lemma loopEvents_quiet:
  "list_all loopEvent evs \<Longrightarrow> editorLaunches evs = [] \<and> hintLookups evs = []"
  by (induction evs) (auto simp: loopEvent_def split: event.splits)

lemma quiet_simps [simp]:
  "quiet []"
  "quiet (OraStart sp b t # es) = quiet es"
  "quiet (OraFail sp # es) = quiet es"
  "quiet (OraSucceed sp # es) = quiet es"
  "quiet (Cherrypick h m a # es) = quiet es"
  "quiet (AutoFixConflicts fs d tb # es) = quiet es"
  "quiet (ConsoleLog t # es) = quiet es"
  by (simp_all add: quiet_def prompts_def editorLaunches_def hintLookups_def)

lemma loop_trace:
  "\<exists>evs. trace (snd (listConflictingAndUnstagedFiles w r c u s)) = trace s @ evs \<and>
         list_all loopEvent evs"
proof (induction "Suc MAX_RETRIES - r" arbitrary: r c u s)
  case 0
  then have r: "r > MAX_RETRIES" by simp
  show ?case
  proof (cases "spec_settled c u")
    case True
    then show ?thesis by (simp add: loop_settled)
  next
    case False
    show ?thesis using r
      by (auto simp: loop_unsettled [OF False] loopEvent_def split: sum.splits)
  qed
next
  case (Suc n)
  then have r: "r \<le> MAX_RETRIES" and n: "n = Suc MAX_RETRIES - Suc r" by simp_all
  show ?case
  proof (cases "spec_settled c u")
    case True
    then show ?thesis by (simp add: loop_settled)
  next
    case False
    show ?thesis
    proof (cases "confirmPrompt w (confirms s) = Inr True \<and> (\<exists>cf uf. getStatus w (queries s) = Inr (cf, uf))")
      case True
      then obtain cf uf where ok: "confirmPrompt w (confirms s) = Inr True"
        and st: "getStatus w (queries s) = Inr (cf, uf)" by blast
      let ?s' = "afterQuery (afterPrompt r c u s)"
      have eq: "listConflictingAndUnstagedFiles w r c u s =
            listConflictingAndUnstagedFiles w (Suc r) (map absolute cf) uf ?s'"
        using ok st r by (simp add: loop_unsettled [OF False])
      from Suc.hyps(1) [OF n, of "map absolute cf" uf ?s'] obtain evs where
        evs: "trace (snd (listConflictingAndUnstagedFiles w (Suc r) (map absolute cf) uf ?s')) = trace ?s' @ evs"
          "list_all loopEvent evs" by blast
      have "trace (snd (listConflictingAndUnstagedFiles w r c u s)) =
              trace s @ ((if r > 0 then [ConsoleLog divider] else []) @
                [ConfirmPrompt (promptText c u)] @ [GetConflictingFiles, GetUnstagedFiles] @ evs)"
        using evs(1) eq by simp
      moreover have "list_all loopEvent ((if r > 0 then [ConsoleLog divider] else []) @
                [ConfirmPrompt (promptText c u)] @ [GetConflictingFiles, GetUnstagedFiles] @ evs)"
        using evs(2) by (simp add: loopEvent_def)
      ultimately show ?thesis by blast
    next
      case F2: False
      show ?thesis using F2
        by (auto simp: loop_unsettled [OF False] loopEvent_def split: sum.splits)
    qed
  qed
qed

lemma loop_first_prompt:
  assumes "\<not> spec_settled c u"
  shows "\<exists>rest. prompts (trace (snd (listConflictingAndUnstagedFiles w r c u s))) =
           prompts (trace s) @ promptText c u # rest"
proof (cases "confirmPrompt w (confirms s) = Inr True \<and> \<not> r > MAX_RETRIES \<and>
              (\<exists>cf uf. getStatus w (queries s) = Inr (cf, uf))")
  case True
  then obtain cf uf where ok: "confirmPrompt w (confirms s) = Inr True" "\<not> r > MAX_RETRIES"
    and st: "getStatus w (queries s) = Inr (cf, uf)" by blast
  let ?s' = "afterQuery (afterPrompt r c u s)"
  have eq: "listConflictingAndUnstagedFiles w r c u s =
            listConflictingAndUnstagedFiles w (r + 1) (map absolute cf) uf ?s'"
    using ok st by (simp add: loop_unsettled [OF assms])
  from loop_trace [of w "r + 1" "map absolute cf" uf ?s'] obtain evs where
    "trace (snd (listConflictingAndUnstagedFiles w (r + 1) (map absolute cf) uf ?s')) = trace ?s' @ evs"
    by blast
  then have "prompts (trace (snd (listConflictingAndUnstagedFiles w r c u s))) =
              prompts (trace s) @ promptText c u # prompts evs"
    using eq by simp
  then show ?thesis by blast
next
  case False
  then have "prompts (trace (snd (listConflictingAndUnstagedFiles w r c u s))) =
              prompts (trace s) @ promptText c u # []"
    by (auto simp: loop_unsettled [OF assms] split: sum.splits)
  then show ?thesis by blast
qed

section \<open>When the loop resolves\<close>

lemma resolves_iff:
  "resolves w r c0 u0 s =
     (\<exists>k. (k = 0 \<or> r + k \<le> Suc MAX_RETRIES) \<and> settledAt w s c0 u0 k \<and>
          (\<forall>j<k. unsettledConfirmed w s c0 u0 j))"
  unfolding resolves_def by auto

lemma snapshot_shift:
  "getStatus w q = Inr (cf, uf) \<Longrightarrow>
   snapshot w (Suc q) (map absolute cf) uf k = snapshot w q c0 u0 (Suc k)"
  by (cases k) simp_all

lemma settledAt_0 [simp]: "settledAt w s c0 u0 0 = spec_settled c0 u0"
  by (simp add: settledAt_def)

lemma unsettledConfirmed_0:
  "unsettledConfirmed w s c0 u0 0 = (\<not> spec_settled c0 u0 \<and> confirmPrompt w (confirms s) = Inr True)"
  by (simp add: unsettledConfirmed_def)

lemma settledAt_Suc:
  assumes "getStatus w (queries s) = Inr (cf, uf)" "queries s' = Suc (queries s)"
  shows "settledAt w s c0 u0 (Suc k) = settledAt w s' (map absolute cf) uf k"
  using assms snapshot_shift [OF assms(1), of k c0 u0] by (simp add: settledAt_def)

lemma unsettledConfirmed_Suc:
  assumes "getStatus w (queries s) = Inr (cf, uf)" "queries s' = Suc (queries s)"
    "confirms s' = Suc (confirms s)"
  shows "unsettledConfirmed w s c0 u0 (Suc j) = unsettledConfirmed w s' (map absolute cf) uf j"
  using assms snapshot_shift [OF assms(1), of j c0 u0] by (simp add: unsettledConfirmed_def)

lemma resolves_settled: "spec_settled c0 u0 \<Longrightarrow> resolves w r c0 u0 s"
  unfolding resolves_iff by (rule exI [of _ 0]) simp

lemma resolves_step:
  assumes st: "getStatus w (queries s) = Inr (cf, uf)"
    and q: "queries s' = Suc (queries s)" and c: "confirms s' = Suc (confirms s)"
    and un: "\<not> spec_settled c0 u0" and ok: "confirmPrompt w (confirms s) = Inr True"
    and r: "r \<le> MAX_RETRIES"
  shows "resolves w r c0 u0 s = resolves w (Suc r) (map absolute cf) uf s'"
proof
  assume "resolves w r c0 u0 s"
  then obtain k where k: "k = 0 \<or> r + k \<le> Suc MAX_RETRIES" "settledAt w s c0 u0 k"
    "\<forall>j<k. unsettledConfirmed w s c0 u0 j"
    unfolding resolves_iff by blast
  from k(2) un obtain k' where k': "k = Suc k'" by (cases k) simp_all
  have "Suc r + k' \<le> Suc MAX_RETRIES" using k(1) k' by simp
  moreover have "settledAt w s' (map absolute cf) uf k'"
    using k(2) k' settledAt_Suc [OF st q] by simp
  moreover have "\<forall>j<k'. unsettledConfirmed w s' (map absolute cf) uf j"
    using k(3) k' unsettledConfirmed_Suc [OF st q c] by auto
  ultimately show "resolves w (Suc r) (map absolute cf) uf s'"
    unfolding resolves_iff by blast
next
  assume "resolves w (Suc r) (map absolute cf) uf s'"
  then obtain k where k: "k = 0 \<or> Suc r + k \<le> Suc MAX_RETRIES"
    "settledAt w s' (map absolute cf) uf k"
    "\<forall>j<k. unsettledConfirmed w s' (map absolute cf) uf j"
    unfolding resolves_iff by blast
  have "r + Suc k \<le> Suc MAX_RETRIES" using k(1) r by auto
  moreover have "settledAt w s c0 u0 (Suc k)"
    using k(2) settledAt_Suc [OF st q] by simp
  moreover have "\<forall>j<Suc k. unsettledConfirmed w s c0 u0 j"
  proof (intro allI impI)
    fix j assume "j < Suc k"
    show "unsettledConfirmed w s c0 u0 j"
    proof (cases j)
      case 0
      then show ?thesis using un ok by (simp add: unsettledConfirmed_0)
    next
      case (Suc j')
      with \<open>j < Suc k\<close> have "j' < k" by simp
      with k(3) Suc show ?thesis using unsettledConfirmed_Suc [OF st q c] by simp
    qed
  qed
  ultimately show "resolves w r c0 u0 s"
    unfolding resolves_iff by blast
qed

lemma resolves_unsettledD:
  assumes "resolves w r c0 u0 s" "\<not> spec_settled c0 u0"
  shows "confirmPrompt w (confirms s) = Inr True \<and> r \<le> MAX_RETRIES \<and>
         (\<exists>cf uf. getStatus w (queries s) = Inr (cf, uf))"
proof -
  from assms(1) obtain k where k: "k = 0 \<or> r + k \<le> Suc MAX_RETRIES" "settledAt w s c0 u0 k"
    "\<forall>j<k. unsettledConfirmed w s c0 u0 j"
    unfolding resolves_iff by blast
  from k(2) assms(2) obtain k' where k': "k = Suc k'" by (cases k) simp_all
  have "unsettledConfirmed w s c0 u0 0" using k(3) k' by simp
  then have a: "confirmPrompt w (confirms s) = Inr True" by (simp add: unsettledConfirmed_0)
  have b: "r \<le> MAX_RETRIES" using k(1) k' by simp
  have "snapshot w (queries s) c0 u0 (Suc 0) \<noteq> None"
  proof (cases k')
    case 0
    then show ?thesis using k(2) k' by (auto simp: settledAt_def split: option.splits)
  next
    case (Suc k'')
    then have "unsettledConfirmed w s c0 u0 (Suc 0)" using k(3) k' by simp
    then show ?thesis by (auto simp: unsettledConfirmed_def split: option.splits)
  qed
  then have "\<exists>cf uf. getStatus w (queries s) = Inr (cf, uf)"
    by (auto split: sum.splits)
  with a b show ?thesis by simp
qed

lemma loop_resolves:
  "(fst (listConflictingAndUnstagedFiles w r c0 u0 s) = Inr ()) = resolves w r c0 u0 s"
proof (induction "Suc MAX_RETRIES - r" arbitrary: r c0 u0 s)
  case 0
  then have r: "r > MAX_RETRIES" by simp
  show ?case
  proof (cases "spec_settled c0 u0")
    case True
    then show ?thesis by (simp add: loop_settled resolves_settled)
  next
    case False
    have "\<not> resolves w r c0 u0 s"
      using resolves_unsettledD [OF _ False, of w r s] r by auto
    moreover have "fst (listConflictingAndUnstagedFiles w r c0 u0 s) \<noteq> Inr ()"
      using r by (simp add: loop_unsettled [OF False] split: sum.splits)
    ultimately show ?thesis by simp
  qed
next
  case (Suc n)
  then have r: "r \<le> MAX_RETRIES" and n: "n = Suc MAX_RETRIES - Suc r" by simp_all
  show ?case
  proof (cases "spec_settled c0 u0")
    case True
    then show ?thesis by (simp add: loop_settled resolves_settled)
  next
    case False
    show ?thesis
    proof (cases "confirmPrompt w (confirms s) = Inr True \<and> (\<exists>cf uf. getStatus w (queries s) = Inr (cf, uf))")
      case True
      then obtain cf uf where ok: "confirmPrompt w (confirms s) = Inr True"
        and st: "getStatus w (queries s) = Inr (cf, uf)" by blast
      let ?s' = "afterQuery (afterPrompt r c0 u0 s)"
      have "listConflictingAndUnstagedFiles w r c0 u0 s =
            listConflictingAndUnstagedFiles w (Suc r) (map absolute cf) uf ?s'"
        using ok st r by (simp add: loop_unsettled [OF False])
      moreover have "resolves w r c0 u0 s = resolves w (Suc r) (map absolute cf) uf ?s'"
        by (rule resolves_step [OF st _ _ False ok r]) simp_all
      ultimately show ?thesis using Suc.hyps(1) [OF n] by simp
    next
      case F2: False
      have "\<not> resolves w r c0 u0 s"
        using resolves_unsettledD [OF _ False, of w r s] F2 by auto
      moreover have "fst (listConflictingAndUnstagedFiles w r c0 u0 s) \<noteq> Inr ()"
        using F2 by (auto simp: loop_unsettled [OF False] split: sum.splits)
      ultimately show ?thesis by simp
    qed
  qed
qed

lemma resolves_counters:
  "queries s' = queries s \<Longrightarrow> confirms s' = confirms s \<Longrightarrow>
   resolves w r c u s' = resolves w r c u s"
  by (simp add: resolves_iff settledAt_def unsettledConfirmed_def)

lemma confirmed_rounds:
  assumes "\<forall>j<n. unsettledConfirmed w s c0 u0 j"
    and "snapshot w (queries s) c0 u0 n = Some (cn, un)"
    and "r + n \<le> Suc MAX_RETRIES"
  shows "\<exists>s'. listConflictingAndUnstagedFiles w r c0 u0 s =
                listConflictingAndUnstagedFiles w (r + n) cn un s' \<and>
              confirms s' = confirms s + n \<and> queries s' = queries s + n"
  using assms
proof (induction n arbitrary: r c0 u0 s)
  case 0
  then have "c0 = cn" "u0 = un" by simp_all
  then show ?case by (intro exI [of _ s]) simp
next
  case (Suc n)
  have u0: "unsettledConfirmed w s c0 u0 0" using Suc.prems(1) by simp
  then have un: "\<not> spec_settled c0 u0" and ok: "confirmPrompt w (confirms s) = Inr True"
    by (simp_all add: unsettledConfirmed_0)
  have r: "r \<le> MAX_RETRIES" using Suc.prems(3) by simp
  have "snapshot w (queries s) c0 u0 (Suc 0) \<noteq> None"
  proof (cases n)
    case 0
    then show ?thesis using Suc.prems(2) by simp
  next
    case (Suc m)
    then have "unsettledConfirmed w s c0 u0 (Suc 0)" using Suc.prems(1) by simp
    then show ?thesis by (auto simp: unsettledConfirmed_def split: option.splits)
  qed
  then obtain cf uf where st: "getStatus w (queries s) = Inr (cf, uf)"
    by (auto split: sum.splits)
  let ?s1 = "afterQuery (afterPrompt r c0 u0 s)"
  have eq: "listConflictingAndUnstagedFiles w r c0 u0 s =
            listConflictingAndUnstagedFiles w (Suc r) (map absolute cf) uf ?s1"
    using ok st r by (simp add: loop_unsettled [OF un])
  have q: "queries ?s1 = Suc (queries s)" and c: "confirms ?s1 = Suc (confirms s)" by simp_all
  have a: "\<forall>j<n. unsettledConfirmed w ?s1 (map absolute cf) uf j"
    using Suc.prems(1) unsettledConfirmed_Suc [OF st q c] by auto
  have b: "snapshot w (queries ?s1) (map absolute cf) uf n = Some (cn, un)"
    using Suc.prems(2) snapshot_shift [OF st, of n c0 u0] by simp
  have d: "Suc r + n \<le> Suc MAX_RETRIES" using Suc.prems(3) by simp
  from Suc.IH [OF a b d] eq show ?case by auto
qed

lemma stuck_unsettled: "\<not> spec_settled [absolute a_go] []"
  by (simp add: spec_settled_def)

lemma stuck_rounds:
  assumes "\<forall>j<n. confirmPrompt w j = Inr True" "getStatus w = (\<lambda>q. Inr ([a_go], []))"
    "n \<le> Suc MAX_RETRIES"
  shows "\<exists>s'. listConflictingAndUnstagedFiles w 0 [absolute a_go] [] s0 =
                listConflictingAndUnstagedFiles w n [absolute a_go] [] s' \<and>
              confirms s' = n \<and> queries s' = n"
proof -
  have snap: "snapshot w 0 [absolute a_go] [] j = Some ([absolute a_go], [])" for j
    using assms(2) by (cases j) simp_all
  have "\<forall>j<n. unsettledConfirmed w s0 [absolute a_go] [] j"
    using assms(1) snap stuck_unsettled by (simp add: unsettledConfirmed_def s0_def)
  moreover have "snapshot w (queries s0) [absolute a_go] [] n = Some ([absolute a_go], [])"
    using snap by (simp add: s0_def)
  ultimately show ?thesis
    using confirmed_rounds [of n w s0 "[absolute a_go]" "[]" "[absolute a_go]" "[]" 0] assms(3)
    by (simp add: s0_def)
qed

section \<open>The phases of conflict handling\<close>

lemma unresolved_entry:
  assumes "cherrypick w = Inr (cfs, us, True)" "notAutoFixed w options cfs tb"
  shows "\<exists>pre. quiet pre \<and>
           cherrypickAndHandleConflicts w options commit author tb s =
             handleUnresolvedConflicts w options tb (getRepoPath w options) cfs us
               (s\<lparr>trace := trace s @ pre\<rparr>)"
proof (cases "autoFixConflicts options")
  case None
  let ?pre = "[Cherrypick (sha (sourceCommit commit))
                 (find (\<lambda>pr. state pr = MERGED \<and> branch pr = tb) (targetPullRequestStates commit)) author,
               OraFail CherrypickSpinner]"
  have "cherrypickAndHandleConflicts w options commit author tb s =
        handleUnresolvedConflicts w options tb (getRepoPath w options) cfs us (s\<lparr>trace := trace s @ ?pre\<rparr>)"
    using assms(1) None by (simp add: cherrypickAndHandleConflicts_def Let_def emit_def)
  moreover have "quiet ?pre" by simp
  ultimately show ?thesis by blast
next
  case (Some f)
  let ?pre = "[Cherrypick (sha (sourceCommit commit))
                 (find (\<lambda>pr. state pr = MERGED \<and> branch pr = tb) (targetPullRequestStates commit)) author,
               OraFail CherrypickSpinner,
               OraStart AutoResolveSpinner (interactive options) ''Attempting to resolve conflicts automatically'',
               AutoFixConflicts (map absolute cfs) (getRepoPath w options) tb,
               OraFail AutoResolveSpinner]"
  have "f (map absolute cfs) (getRepoPath w options) tb = Inr False"
    using assms(2) Some by (simp add: notAutoFixed_def)
  then have "cherrypickAndHandleConflicts w options commit author tb s =
        handleUnresolvedConflicts w options tb (getRepoPath w options) cfs us (s\<lparr>trace := trace s @ ?pre\<rparr>)"
    using assms(1) Some by (simp add: cherrypickAndHandleConflicts_def Let_def emit_def)
  moreover have "quiet ?pre" by simp
  ultimately show ?thesis by blast
qed

lemma unresolved_noninteractive:
  assumes "getCommitsWithoutBackports w (take 50 (map relative cfs)) = Inr hints"
    "\<not> interactive options"
  shows "handleUnresolvedConflicts w options tb repoPath cfs us s =
           (Inl (MergeConflictException hints (take 50 (map relative cfs))),
            s\<lparr>trace := trace s @ [GetCommitsWithoutBackports (take 50 (map relative cfs))]\<rparr>)"
  using assms by (simp add: handleUnresolvedConflicts_def Let_def emit_def)

lemma unresolved_interactive:
  assumes "getCommitsWithoutBackports w (take 50 (map relative cfs)) = Inr hints"
    "interactive options"
  shows "\<exists>logs. prompts logs = [] \<and> editorLaunches logs = [] \<and> hintLookups logs = [] \<and>
           handleUnresolvedConflicts w options tb repoPath cfs us s =
             (case truthyString (editor options) of
                None \<Rightarrow>
                  listConflictingAndUnstagedFiles w 0 (map absolute cfs) us
                    (s\<lparr>trace := trace s @ GetCommitsWithoutBackports (take 50 (map relative cfs)) # logs\<rparr>)
              | Some ed \<Rightarrow>
                  (case spawnPromise w of
                     Inl e \<Rightarrow>
                       (Inl e, s\<lparr>trace := trace s @ GetCommitsWithoutBackports (take 50 (map relative cfs)) # logs
                                          @ [SpawnPromise ed [repoPath] (cwd options)]\<rparr>)
                   | Inr u \<Rightarrow>
                       listConflictingAndUnstagedFiles w 0 (map absolute cfs) us
                         (s\<lparr>trace := trace s @ GetCommitsWithoutBackports (take 50 (map relative cfs)) # logs
                                          @ [SpawnPromise ed [repoPath] (cwd options)]\<rparr>)))"
proof -
  let ?logs = "[ConsoleLog conflictsHeadline, ConsoleLog (''Please fix the conflicts in '' @ repoPath)] @
               (if length hints > 0
                then [ConsoleLog (hintHeadline tb), ConsoleLog (join nl (map formatted hints) @ nl @ nl)]
                else [])"
  have "prompts ?logs = [] \<and> editorLaunches ?logs = [] \<and> hintLookups ?logs = []"
    by (auto simp: prompts_def editorLaunches_def hintLookups_def)
  moreover have "handleUnresolvedConflicts w options tb repoPath cfs us s =
             (case truthyString (editor options) of
                None \<Rightarrow>
                  listConflictingAndUnstagedFiles w 0 (map absolute cfs) us
                    (s\<lparr>trace := trace s @ GetCommitsWithoutBackports (take 50 (map relative cfs)) # ?logs\<rparr>)
              | Some ed \<Rightarrow>
                  (case spawnPromise w of
                     Inl e \<Rightarrow>
                       (Inl e, s\<lparr>trace := trace s @ GetCommitsWithoutBackports (take 50 (map relative cfs)) # ?logs
                                          @ [SpawnPromise ed [repoPath] (cwd options)]\<rparr>)
                   | Inr u \<Rightarrow>
                       listConflictingAndUnstagedFiles w 0 (map absolute cfs) us
                         (s\<lparr>trace := trace s @ GetCommitsWithoutBackports (take 50 (map relative cfs)) # ?logs
                                          @ [SpawnPromise ed [repoPath] (cwd options)]\<rparr>)))"
    using assms
    by (simp add: handleUnresolvedConflicts_def Let_def emit_def split: option.splits sum.splits)
  ultimately show ?thesis by blast
qed

lemma interactive_entry:
  assumes "cherrypick w = Inr (cfs, us, True)"
    and "notAutoFixed w options cfs tb"
    and "getCommitsWithoutBackports w (take 50 (map relative cfs)) = Inr hints"
    and "interactive options"
    and "truthyString (editor options) = None \<or> spawnPromise w = Inr ()"
  shows "\<exists>pre. prompts pre = [] \<and> hintLookups pre = [take 50 (map relative cfs)] \<and>
           cherrypickAndHandleConflicts w options commit author tb s =
             listConflictingAndUnstagedFiles w 0 (map absolute cfs) us (s\<lparr>trace := trace s @ pre\<rparr>)"
proof -
  from unresolved_entry [OF assms(1,2), of commit author s] obtain pre where
    pre: "quiet pre"
      "cherrypickAndHandleConflicts w options commit author tb s =
         handleUnresolvedConflicts w options tb (getRepoPath w options) cfs us (s\<lparr>trace := trace s @ pre\<rparr>)"
    by blast
  from unresolved_interactive [OF assms(3,4), of tb "getRepoPath w options" us "s\<lparr>trace := trace s @ pre\<rparr>"]
  obtain logs where
    logs: "prompts logs = []" "hintLookups logs = []"
      "handleUnresolvedConflicts w options tb (getRepoPath w options) cfs us (s\<lparr>trace := trace s @ pre\<rparr>) =
         (case truthyString (editor options) of
            None \<Rightarrow>
              listConflictingAndUnstagedFiles w 0 (map absolute cfs) us
                (s\<lparr>trace := trace s @ pre\<rparr>
                   \<lparr>trace := trace (s\<lparr>trace := trace s @ pre\<rparr>) @
                      GetCommitsWithoutBackports (take 50 (map relative cfs)) # logs\<rparr>)
          | Some ed \<Rightarrow>
              (case spawnPromise w of
                 Inl e \<Rightarrow>
                   (Inl e, s\<lparr>trace := trace s @ pre\<rparr>
                      \<lparr>trace := trace (s\<lparr>trace := trace s @ pre\<rparr>) @
                         GetCommitsWithoutBackports (take 50 (map relative cfs)) # logs @
                         [SpawnPromise ed [getRepoPath w options] (cwd options)]\<rparr>)
               | Inr u \<Rightarrow>
                   listConflictingAndUnstagedFiles w 0 (map absolute cfs) us
                     (s\<lparr>trace := trace s @ pre\<rparr>
                        \<lparr>trace := trace (s\<lparr>trace := trace s @ pre\<rparr>) @
                           GetCommitsWithoutBackports (take 50 (map relative cfs)) # logs @
                           [SpawnPromise ed [getRepoPath w options] (cwd options)]\<rparr>)))"
    by blast
  show ?thesis
  proof (cases "truthyString (editor options)")
    case None
    let ?pre = "pre @ GetCommitsWithoutBackports (take 50 (map relative cfs)) # logs"
    have "cherrypickAndHandleConflicts w options commit author tb s =
            listConflictingAndUnstagedFiles w 0 (map absolute cfs) us (s\<lparr>trace := trace s @ ?pre\<rparr>)"
      unfolding pre(2) logs(3) using None by simp
    moreover have "prompts ?pre = [] \<and> hintLookups ?pre = [take 50 (map relative cfs)]"
      using pre(1) logs(1,2) by (simp add: quiet_def)
    ultimately show ?thesis by blast
  next
    case (Some ed)
    then have sp: "spawnPromise w = Inr ()" using assms(5) by simp
    let ?pre = "pre @ GetCommitsWithoutBackports (take 50 (map relative cfs)) # logs @
                [SpawnPromise ed [getRepoPath w options] (cwd options)]"
    have "cherrypickAndHandleConflicts w options commit author tb s =
            listConflictingAndUnstagedFiles w 0 (map absolute cfs) us (s\<lparr>trace := trace s @ ?pre\<rparr>)"
      unfolding pre(2) logs(3) using Some sp by simp
    moreover have "prompts ?pre = [] \<and> hintLookups ?pre = [take 50 (map relative cfs)]"
      using pre(1) logs(1,2) by (simp add: quiet_def)
    ultimately show ?thesis by blast
  qed
qed

lemma files75_Cons:
  "files75 = \<lparr>absolute = ''/repo/f'' @ string_of_nat 0, relative = ''f'' @ string_of_nat 0\<rparr> #
       map (\<lambda>i. \<lparr>absolute = ''/repo/f'' @ string_of_nat i, relative = ''f'' @ string_of_nat i\<rparr>) [1..<75]"
  unfolding files75_def by (subst upt_conv_Cons) simp_all

lemma join_Cons:
  "join sep (x # xs) = x @ (case xs of [] \<Rightarrow> [] | y # ys \<Rightarrow> sep @ join sep xs)"
  by (cases xs) simp_all

lemma promptText_Cons:
  "promptText (x # xs) [] =
     ''Fix the following conflicts manually:'' @ nl @ nl @ ''Conflicting files:'' @ nl @ '' - '' @ x @
       (case xs of [] \<Rightarrow> [] | y # ys \<Rightarrow> nl @ join nl (map (\<lambda>file. '' - '' @ file) xs)) @ nl @ nl @ nl @
       ''Press ENTER when the conflicts are resolved and files are staged''"
  by (cases xs) (simp_all add: promptText_def isEmpty_def difference_def)

lemma files75_texts_differ:
  "promptText (map absolute files75) [] \<noteq> promptText (take 50 (map relative files75)) []"
  unfolding files75_Cons by (simp add: promptText_Cons nl_def)

lemma files75_unsettled: "\<not> spec_settled (map absolute files75) []"
  unfolding files75_Cons by (simp add: spec_settled_def)

section \<open>Rendered numbers\<close>

lemma string_of_nat_42: "string_of_nat 42 = ''42''"
  by code_simp

lemma maxRetriesMessage_text: "maxRetriesMessage = ''Maximum number of retries (100) exceeded''"
  by code_simp

section \<open>The claims\<close>

subsection \<open>C1: the loop resolves exactly at a settled fresh snapshot\<close>

text \<open>
  C1. A loop entered with counter \<open>r\<close> ends in its resolved branch exactly when some round
  \<open>k\<close> is reached whose snapshot has no conflicting file and no unstaged file outside the
  conflicting ones, every earlier round having shown an unsettled snapshot that the user
  confirmed, and round \<open>k\<close> being the entry round or one the counter still allows
  (\<open>r + k \<le> MAX_RETRIES + 1\<close>). The snapshot of round 0 is the
  pair of lists passed at entry; the snapshot of every later round is the answer of that
  round's status query and does not depend on the lists passed at entry.
\<close>

theorem C1_resolved_iff_fresh_snapshot_settled:
  "((fst (listConflictingAndUnstagedFiles w r c0 u0 s) = Inr ()) =
      (\<exists>k. (k = 0 \<or> r + k \<le> Suc MAX_RETRIES) \<and> settledAt w s c0 u0 k \<and>
           (\<forall>j<k. unsettledConfirmed w s c0 u0 j))) \<and>
   settledAt w s c0 u0 0 = (set c0 = {} \<and> set u0 - set c0 = {}) \<and>
   settledAt w s c0 u0 (Suc k) = settledAt w s c0' u0' (Suc k) \<and>
   settledAt w s c0 u0 (Suc k) =
     (case getStatus w (queries s + k) of
        Inl e \<Rightarrow> False
      | Inr (conflictingFiles, unstagedFiles) \<Rightarrow>
          set (map absolute conflictingFiles) = {} \<and>
          set unstagedFiles - set (map absolute conflictingFiles) = {})"
proof -
  have "(fst (listConflictingAndUnstagedFiles w r c0 u0 s) = Inr ()) =
      (\<exists>k. (k = 0 \<or> r + k \<le> Suc MAX_RETRIES) \<and> settledAt w s c0 u0 k \<and>
           (\<forall>j<k. unsettledConfirmed w s c0 u0 j))"
    using loop_resolves [of w r c0 u0 s] by (simp add: resolves_iff)
  moreover have "settledAt w s c0 u0 0 = (set c0 = {} \<and> set u0 - set c0 = {})"
    by (simp add: spec_settled_def)
  moreover have "settledAt w s c0 u0 (Suc k) = settledAt w s c0' u0' (Suc k)"
    by (simp add: settledAt_def)
  moreover have "settledAt w s c0 u0 (Suc k) =
     (case getStatus w (queries s + k) of
        Inl e \<Rightarrow> False
      | Inr (conflictingFiles, unstagedFiles) \<Rightarrow>
          set (map absolute conflictingFiles) = {} \<and>
          set unstagedFiles - set (map absolute conflictingFiles) = {})"
    by (simp add: settledAt_def spec_settled_def split: sum.splits)
  ultimately show ?thesis by blast
qed

text \<open>
  The scenario of the specification: \<open>a.go\<close> and \<open>b.go\<close> conflict at entry, the user
  confirms the first prompt, and the fresh snapshot of round 1 is clean.
\<close>

theorem C1_witness:
  "fst (listConflictingAndUnstagedFiles idleWorld 0 [''/repo/a.go'', ''/repo/b.go''] [] s0) = Inr () \<and>
   settledAt idleWorld s0 [''/repo/a.go'', ''/repo/b.go''] [] 1 \<and>
   unsettledConfirmed idleWorld s0 [''/repo/a.go'', ''/repo/b.go''] [] 0 \<and>
   \<not> settledAt idleWorld s0 [''/repo/a.go'', ''/repo/b.go''] [] 0"
proof -
  have a: "settledAt idleWorld s0 [''/repo/a.go'', ''/repo/b.go''] [] (Suc 0)"
    by (simp add: settledAt_def idleWorld_def s0_def spec_settled_def)
  have b: "unsettledConfirmed idleWorld s0 [''/repo/a.go'', ''/repo/b.go''] [] 0"
    by (simp add: unsettledConfirmed_def idleWorld_def s0_def spec_settled_def)
  have c: "\<not> settledAt idleWorld s0 [''/repo/a.go'', ''/repo/b.go''] [] 0"
    by (simp add: spec_settled_def)
  have "\<exists>k. (k = 0 \<or> 0 + k \<le> Suc MAX_RETRIES) \<and>
          settledAt idleWorld s0 [''/repo/a.go'', ''/repo/b.go''] [] k \<and>
          (\<forall>j<k. unsettledConfirmed idleWorld s0 [''/repo/a.go'', ''/repo/b.go''] [] j)"
    using a b by (intro exI [of _ "Suc 0"]) simp
  then have "fst (listConflictingAndUnstagedFiles idleWorld 0 [''/repo/a.go'', ''/repo/b.go''] [] s0) = Inr ()"
    using C1_resolved_iff_fresh_snapshot_settled
            [of idleWorld 0 "[''/repo/a.go'', ''/repo/b.go'']" "[]" s0 0 "[]" "[]"]
    by blast
  with a b c show ?thesis by simp
qed

subsection \<open>C2: the retry ceiling\<close>

text \<open>
  C2. The claim: after each confirmation the counter is incremented and, as soon as it then
  exceeds \<open>MAX_RETRIES\<close>, the loop fails with the retry-limit error; 101 consecutive
  confirmed rounds with conflicts remaining end in that error. The code compares the value
  the counter had before the increment. In a world where \<open>a.go\<close> stays in conflict and
  every prompt is confirmed, the error comes only after 102 answered prompts; and when the
  user confirms 101 prompts and declines the next, the loop is still running and ends in the
  abort error. The retry-limit error is a plain \<open>Error\<close>, never the abort exception.
\<close>

theorem C2_retry_limit_only_after_102_confirmations:
  "fst (listConflictingAndUnstagedFiles stuckWorld 0 [absolute a_go] [] s0) =
     Inl (Error ''Maximum number of retries (100) exceeded'') \<and>
   confirms (snd (listConflictingAndUnstagedFiles stuckWorld 0 [absolute a_go] [] s0)) = 102 \<and>
   fst (listConflictingAndUnstagedFiles (stuckWorld\<lparr>confirmPrompt := (\<lambda>n. Inr (n < 101))\<rparr>) 0
          [absolute a_go] [] s0) = Inl AbortConflictResolutionException"
proof -
  obtain s' where 1: "listConflictingAndUnstagedFiles stuckWorld 0 [absolute a_go] [] s0 =
      listConflictingAndUnstagedFiles stuckWorld (Suc MAX_RETRIES) [absolute a_go] [] s'"
      "confirms s' = Suc MAX_RETRIES"
    using stuck_rounds [of "Suc MAX_RETRIES" stuckWorld]
    by (auto simp: stuckWorld_def idleWorld_def)
  have 2: "listConflictingAndUnstagedFiles stuckWorld (Suc MAX_RETRIES) [absolute a_go] [] s' =
      (Inl (Error maxRetriesMessage), afterPrompt (Suc MAX_RETRIES) [absolute a_go] [] s')"
    by (simp add: loop_unsettled [OF stuck_unsettled] stuckWorld_def idleWorld_def)
  let ?w = "stuckWorld\<lparr>confirmPrompt := (\<lambda>n. Inr (n < 101))\<rparr>"
  obtain s'' where 3: "listConflictingAndUnstagedFiles ?w 0 [absolute a_go] [] s0 =
      listConflictingAndUnstagedFiles ?w (Suc MAX_RETRIES) [absolute a_go] [] s''"
      "confirms s'' = Suc MAX_RETRIES"
    using stuck_rounds [of "Suc MAX_RETRIES" ?w]
    by (auto simp: stuckWorld_def idleWorld_def MAX_RETRIES_def)
  have 4: "fst (listConflictingAndUnstagedFiles ?w (Suc MAX_RETRIES) [absolute a_go] [] s'') =
      Inl AbortConflictResolutionException"
    using 3(2) by (simp add: loop_unsettled [OF stuck_unsettled] MAX_RETRIES_def)
  show ?thesis using 1 2 3 4 by (simp add: MAX_RETRIES_def maxRetriesMessage_text)
qed

subsection \<open>C3: what is truncated to fifty files\<close>

text \<open>
  C3, as claimed: with more than 50 conflicting files, the hint lookup and the interactive
  prompt both receive exactly the first 50 as relative paths. The prompt does not: the loop
  is called with the absolute paths of all conflicting files. With 75 files and a user who
  declines the first prompt, the one prompt shown lists all 75 absolute paths, which is not
  the text built from the first 50 relative paths.
\<close>

theorem C3_counterexample:
  "prompts (trace (snd (cherrypickAndHandleConflicts decliningWorld interactiveOptions abc123 dev ''7.x'' s0))) =
     [promptText (map absolute files75) []] \<and>
   prompts (trace (snd (cherrypickAndHandleConflicts decliningWorld interactiveOptions abc123 dev ''7.x'' s0))) \<noteq>
     [promptText (take 50 (map relative files75)) []] \<and>
   length (map absolute files75) = 75"
proof -
  have 1: "cherrypick decliningWorld = Inr (files75, [], True)"
    and 2: "notAutoFixed decliningWorld interactiveOptions files75 ''7.x''"
    and 3: "getCommitsWithoutBackports decliningWorld (take 50 (map relative files75)) = Inr []"
    and 4: "interactive interactiveOptions"
    and 5: "truthyString (editor interactiveOptions) = None \<or> spawnPromise decliningWorld = Inr ()"
    by (simp_all add: decliningWorld_def idleWorld_def interactiveOptions_def notAutoFixed_def)
  from interactive_entry [OF 1 2 3 4 5, of abc123 dev s0] obtain pre where
    pre: "prompts pre = []"
      "cherrypickAndHandleConflicts decliningWorld interactiveOptions abc123 dev ''7.x'' s0 =
         listConflictingAndUnstagedFiles decliningWorld 0 (map absolute files75) [] (s0\<lparr>trace := trace s0 @ pre\<rparr>)"
    by blast
  have "confirmPrompt decliningWorld (confirms (s0\<lparr>trace := trace s0 @ pre\<rparr>)) = Inr False"
    by (simp add: decliningWorld_def idleWorld_def)
  from loop_decline [OF files75_unsettled this, of 0]
  have "prompts (trace (snd (cherrypickAndHandleConflicts decliningWorld interactiveOptions abc123 dev ''7.x'' s0))) =
     [promptText (map absolute files75) []]"
    unfolding pre(2) using pre(1) by (simp add: s0_def)
  moreover have "length (map absolute files75) = 75" by (simp add: files75_def)
  ultimately show ?thesis using files75_texts_differ by simp
qed

text \<open>
  C3, amended. In interactive mode, when the resolver did not fix the conflicts, the hint
  lookup succeeded and the editor (if any) exited normally: the hint lookup receives
  exactly the first 50 conflicting files as relative paths; the first prompt, when the entry
  snapshot is unsettled, is the text built from all conflicting files as absolute paths and
  the unstaged files; and conflict handling returns normally exactly when a round within the
  ceiling has a settled snapshot of the full lists, every earlier round being unsettled and
  confirmed.
\<close>

theorem C3_hints_truncated_prompt_untruncated:
  assumes "cherrypick w = Inr (cfs, us, True)"
    and "notAutoFixed w options cfs tb"
    and "getCommitsWithoutBackports w (take 50 (map relative cfs)) = Inr hints"
    and "interactive options"
    and "truthyString (editor options) = None \<or> spawnPromise w = Inr ()"
  shows "hintLookups (trace (snd (cherrypickAndHandleConflicts w options commit author tb s))) =
           hintLookups (trace s) @ [take 50 (map relative cfs)] \<and>
         (\<not> spec_settled (map absolute cfs) us \<longrightarrow>
           (\<exists>rest. prompts (trace (snd (cherrypickAndHandleConflicts w options commit author tb s))) =
              prompts (trace s) @ promptText (map absolute cfs) us # rest)) \<and>
         ((fst (cherrypickAndHandleConflicts w options commit author tb s) = Inr ()) =
           (\<exists>k\<le>Suc MAX_RETRIES. settledAt w s (map absolute cfs) us k \<and>
              (\<forall>j<k. unsettledConfirmed w s (map absolute cfs) us j)))"
proof -
  from interactive_entry [OF assms, of commit author s] obtain pre where
    pre: "prompts pre = []" "hintLookups pre = [take 50 (map relative cfs)]"
      "cherrypickAndHandleConflicts w options commit author tb s =
         listConflictingAndUnstagedFiles w 0 (map absolute cfs) us (s\<lparr>trace := trace s @ pre\<rparr>)"
    by blast
  let ?s' = "s\<lparr>trace := trace s @ pre\<rparr>"
  from loop_trace [of w 0 "map absolute cfs" us ?s'] obtain evs where
    evs: "trace (snd (listConflictingAndUnstagedFiles w 0 (map absolute cfs) us ?s')) = trace ?s' @ evs"
      "list_all loopEvent evs" by blast
  have a: "hintLookups (trace (snd (cherrypickAndHandleConflicts w options commit author tb s))) =
           hintLookups (trace s) @ [take 50 (map relative cfs)]"
    unfolding pre(3) using evs(1) loopEvents_quiet [OF evs(2)] pre(2) by simp
  have b: "\<exists>rest. prompts (trace (snd (cherrypickAndHandleConflicts w options commit author tb s))) =
              prompts (trace s) @ promptText (map absolute cfs) us # rest"
    if "\<not> spec_settled (map absolute cfs) us"
    unfolding pre(3) using loop_first_prompt [OF that, of w 0 ?s'] pre(1) by simp
  have "(fst (cherrypickAndHandleConflicts w options commit author tb s) = Inr ()) =
          resolves w 0 (map absolute cfs) us ?s'"
    unfolding pre(3) by (rule loop_resolves)
  also have "\<dots> = resolves w 0 (map absolute cfs) us s"
    by (rule resolves_counters) simp_all
  also have "\<dots> = (\<exists>k\<le>Suc MAX_RETRIES. settledAt w s (map absolute cfs) us k \<and>
              (\<forall>j<k. unsettledConfirmed w s (map absolute cfs) us j))"
    unfolding resolves_iff by auto
  finally show ?thesis using a b by blast
qed

text \<open>The 75 files again: the lookup gets 50 relative paths, the prompt all 75 absolute ones.\<close>

theorem C3_witness:
  "hintLookups (trace (snd (cherrypickAndHandleConflicts decliningWorld interactiveOptions abc123 dev ''7.x'' s0))) =
     [take 50 (map relative files75)] \<and>
   length (take 50 (map relative files75)) = 50 \<and>
   (\<exists>rest. prompts (trace (snd (cherrypickAndHandleConflicts decliningWorld interactiveOptions abc123 dev ''7.x'' s0))) =
      promptText (map absolute files75) [] # rest)"
proof -
  have 1: "cherrypick decliningWorld = Inr (files75, [], True)"
    and 2: "notAutoFixed decliningWorld interactiveOptions files75 ''7.x''"
    and 3: "getCommitsWithoutBackports decliningWorld (take 50 (map relative files75)) = Inr []"
    and 4: "interactive interactiveOptions"
    and 5: "truthyString (editor interactiveOptions) = None \<or> spawnPromise decliningWorld = Inr ()"
    by (simp_all add: decliningWorld_def idleWorld_def interactiveOptions_def notAutoFixed_def)
  have "length (take 50 (map relative files75)) = 50" by (simp add: files75_def)
  then show ?thesis
    using C3_hints_truncated_prompt_untruncated [OF 1 2 3 4 5, of abc123 dev s0] files75_unsettled
    by (simp add: s0_def)
qed

subsection \<open>C4: non-interactive mode fails with the merge conflict\<close>

text \<open>
  C4. With interactive mode off, when the cherry-pick needs resolving, the resolver did not
  fix the conflicts (none configured, or it returned false) and the hint lookup returned its
  list, conflict handling fails with the merge-conflict exception carrying that list and the
  first 50 relative paths. No prompt is shown, no status query is issued and no editor is
  launched: the loop is not entered.
\<close>

theorem C4_noninteractive_merge_conflict:
  assumes "cherrypick w = Inr (cfs, us, True)"
    and "notAutoFixed w options cfs tb"
    and "getCommitsWithoutBackports w (take 50 (map relative cfs)) = Inr hints"
    and "\<not> interactive options"
  shows "fst (cherrypickAndHandleConflicts w options commit author tb s) =
           Inl (MergeConflictException hints (take 50 (map relative cfs))) \<and>
         prompts (trace (snd (cherrypickAndHandleConflicts w options commit author tb s))) =
           prompts (trace s) \<and>
         confirms (snd (cherrypickAndHandleConflicts w options commit author tb s)) = confirms s \<and>
         queries (snd (cherrypickAndHandleConflicts w options commit author tb s)) = queries s \<and>
         editorLaunches (trace (snd (cherrypickAndHandleConflicts w options commit author tb s))) =
           editorLaunches (trace s) \<and>
         hintLookups (trace (snd (cherrypickAndHandleConflicts w options commit author tb s))) =
           hintLookups (trace s) @ [take 50 (map relative cfs)]"
proof -
  from unresolved_entry [OF assms(1,2), of commit author s] obtain pre where
    pre: "quiet pre"
      "cherrypickAndHandleConflicts w options commit author tb s =
         handleUnresolvedConflicts w options tb (getRepoPath w options) cfs us (s\<lparr>trace := trace s @ pre\<rparr>)"
    by blast
  show ?thesis
    using pre(1) unfolding pre(2) unresolved_noninteractive [OF assms(3,4)]
    by (simp add: quiet_def)
qed

text \<open>The second scenario of the specification: \<open>a.go\<close> and \<open>b.go\<close>, interactive off.\<close>

theorem C4_witness:
  "fst (cherrypickAndHandleConflicts conflictWorld (interactiveOptions\<lparr>interactive := False\<rparr>)
          abc123 dev ''7.x'' s0) =
     Inl (MergeConflictException [] [''a.go'', ''b.go'']) \<and>
   prompts (trace (snd (cherrypickAndHandleConflicts conflictWorld
          (interactiveOptions\<lparr>interactive := False\<rparr>) abc123 dev ''7.x'' s0))) = [] \<and>
   confirms (snd (cherrypickAndHandleConflicts conflictWorld
          (interactiveOptions\<lparr>interactive := False\<rparr>) abc123 dev ''7.x'' s0)) = 0"
  using C4_noninteractive_merge_conflict
          [of conflictWorld "[a_go, b_go]" "[]" "interactiveOptions\<lparr>interactive := False\<rparr>"
              "''7.x''" "[]" abc123 dev s0]
  by (simp add: conflictWorld_def idleWorld_def interactiveOptions_def notAutoFixed_def a_go_def
      b_go_def s0_def)

subsection \<open>C5: a successful automatic resolver ends the phase\<close>

text \<open>
  C5. When a resolver is configured and returns true on the absolute paths of the
  conflicting files and the repository path, conflict handling returns normally at once.
  The calls made are exactly: the cherry-pick, the failure of its spinner, the start of the
  resolver's spinner, the resolver, the success of its spinner. No hint lookup, no prompt
  and no status query occur.
\<close>

theorem C5_auto_resolved_short_circuits:
  assumes "cherrypick w = Inr (cfs, us, True)"
    and "autoFixConflicts options = Some autoFix"
    and "autoFix (map absolute cfs) (getRepoPath w options) tb = Inr True"
  shows "fst (cherrypickAndHandleConflicts w options commit author tb s) = Inr () \<and>
         trace (snd (cherrypickAndHandleConflicts w options commit author tb s)) =
           trace s @
           [Cherrypick (sha (sourceCommit commit))
              (find (\<lambda>pr. state pr = MERGED \<and> branch pr = tb) (targetPullRequestStates commit)) author,
            OraFail CherrypickSpinner,
            OraStart AutoResolveSpinner (interactive options)
              ''Attempting to resolve conflicts automatically'',
            AutoFixConflicts (map absolute cfs) (getRepoPath w options) tb,
            OraSucceed AutoResolveSpinner] \<and>
         hintLookups (trace (snd (cherrypickAndHandleConflicts w options commit author tb s))) =
           hintLookups (trace s) \<and>
         prompts (trace (snd (cherrypickAndHandleConflicts w options commit author tb s))) =
           prompts (trace s) \<and>
         confirms (snd (cherrypickAndHandleConflicts w options commit author tb s)) = confirms s \<and>
         queries (snd (cherrypickAndHandleConflicts w options commit author tb s)) = queries s"
  using assms
  by (simp add: cherrypickAndHandleConflicts_def Let_def emit_def)

text \<open>A resolver that always succeeds, on \<open>a.go\<close> and \<open>b.go\<close>.\<close>

theorem C5_witness:
  "fst (cherrypickAndHandleConflicts conflictWorld
          (interactiveOptions\<lparr>autoFixConflicts := Some (\<lambda>files directory targetBranch. Inr True)\<rparr>)
          abc123 dev ''7.x'' s0) = Inr () \<and>
   trace (snd (cherrypickAndHandleConflicts conflictWorld
          (interactiveOptions\<lparr>autoFixConflicts := Some (\<lambda>files directory targetBranch. Inr True)\<rparr>)
          abc123 dev ''7.x'' s0)) =
     [Cherrypick ''abc123'' None dev, OraFail CherrypickSpinner,
      OraStart AutoResolveSpinner True ''Attempting to resolve conflicts automatically'',
      AutoFixConflicts [''/repo/a.go'', ''/repo/b.go''] ''/repo'' ''7.x'',
      OraSucceed AutoResolveSpinner]"
  using C5_auto_resolved_short_circuits [of conflictWorld "[a_go, b_go]" "[]"
      "interactiveOptions\<lparr>autoFixConflicts := Some (\<lambda>files directory targetBranch. Inr True)\<rparr>"
      "\<lambda>files directory targetBranch. Inr True" "''7.x''" abc123 dev s0]
  by (simp add: conflictWorld_def idleWorld_def interactiveOptions_def a_go_def
      b_go_def s0_def abc123_def)

subsection \<open>C6: declining aborts at once\<close>

text \<open>
  C6. In any round, whatever the counter, when the snapshot is unsettled and the user
  declines the prompt, the loop fails with the abort exception. The only calls of the round
  are the divider (after the first round) and the prompt itself: no status query is issued,
  the counter plays no part (the result is the same above the ceiling), and nothing is
  committed.
\<close>

theorem C6_decline_aborts_at_once:
  assumes "\<not> spec_settled c u" and "confirmPrompt w (confirms s) = Inr False"
  shows "fst (listConflictingAndUnstagedFiles w r c u s) = Inl AbortConflictResolutionException \<and>
         trace (snd (listConflictingAndUnstagedFiles w r c u s)) =
           trace s @ (if 0 < r then [ConsoleLog divider] else []) @ [ConfirmPrompt (promptText c u)] \<and>
         queries (snd (listConflictingAndUnstagedFiles w r c u s)) = queries s \<and>
         confirms (snd (listConflictingAndUnstagedFiles w r c u s)) = Suc (confirms s) \<and>
         commitCalls (trace (snd (listConflictingAndUnstagedFiles w r c u s))) = commitCalls (trace s)"
  using assms(2) by (simp add: loop_unsettled [OF assms(1)])

text \<open>A single decline at round 0, and a decline in a round entered above the ceiling.\<close>

theorem C6_witness:
  "fst (listConflictingAndUnstagedFiles decliningWorld 0 [''/repo/a.go''] [] s0) =
     Inl AbortConflictResolutionException \<and>
   trace (snd (listConflictingAndUnstagedFiles decliningWorld 0 [''/repo/a.go''] [] s0)) =
     [ConfirmPrompt (promptText [''/repo/a.go''] [])] \<and>
   queries (snd (listConflictingAndUnstagedFiles decliningWorld 0 [''/repo/a.go''] [] s0)) = 0 \<and>
   fst (listConflictingAndUnstagedFiles decliningWorld 101 [''/repo/a.go''] [] s0) =
     Inl AbortConflictResolutionException"
proof -
  have u: "\<not> spec_settled [''/repo/a.go''] []" by (simp add: spec_settled_def)
  have d: "confirmPrompt decliningWorld (confirms s0) = Inr False"
    by (simp add: decliningWorld_def idleWorld_def)
  show ?thesis
    using C6_decline_aborts_at_once [OF u d, of 0] C6_decline_aborts_at_once [OF u d, of 101]
    by (simp add: s0_def)
qed

subsection \<open>C7: the bound on the retry counter\<close>

text \<open>
  C7. The claim: the counter stays within \<open>0 \<le> retries \<le> MAX_RETRIES\<close>, and no round is
  entered with a counter above the bound. In the world where \<open>a.go\<close> stays in conflict and
  every prompt is confirmed, the loop started with counter 0 reaches, after 101 prompts and
  101 status queries, a recursive call with counter 101, and that round prompts the user
  once more.
\<close>

theorem C7_round_entered_with_counter_101:
  "\<exists>s'. listConflictingAndUnstagedFiles stuckWorld 0 [absolute a_go] [] s0 =
         listConflictingAndUnstagedFiles stuckWorld 101 [absolute a_go] [] s' \<and>
        confirms s' = 101 \<and> queries s' = 101 \<and> MAX_RETRIES < 101 \<and>
        prompts (trace (snd (listConflictingAndUnstagedFiles stuckWorld 101 [absolute a_go] [] s'))) =
          prompts (trace s') @ [promptText [absolute a_go] []]"
proof -
  obtain s' where 1: "listConflictingAndUnstagedFiles stuckWorld 0 [absolute a_go] [] s0 =
      listConflictingAndUnstagedFiles stuckWorld (Suc MAX_RETRIES) [absolute a_go] [] s'"
      "confirms s' = Suc MAX_RETRIES" "queries s' = Suc MAX_RETRIES"
    using stuck_rounds [of "Suc MAX_RETRIES" stuckWorld]
    by (auto simp: stuckWorld_def idleWorld_def)
  have 2: "listConflictingAndUnstagedFiles stuckWorld (Suc MAX_RETRIES) [absolute a_go] [] s' =
      (Inl (Error maxRetriesMessage), afterPrompt (Suc MAX_RETRIES) [absolute a_go] [] s')"
    by (simp add: loop_unsettled [OF stuck_unsettled] stuckWorld_def idleWorld_def)
  have "Suc MAX_RETRIES = 101" by (simp add: MAX_RETRIES_def)
  with 1 2 show ?thesis
    by (intro exI [of _ s']) (simp add: MAX_RETRIES_def)
qed

subsection \<open>C8: the editor is launched once, before the first prompt\<close>

text \<open>
  C8. In interactive mode with an editor configured (a non-empty string), when the
  conflicts were not fixed
  automatically and the hint lookup returned: the calls of conflict handling are a prefix
  without any prompt or editor launch, then the launch of the editor on the repository
  path; only when that launch has returned normally is the loop entered, in the state just
  after the launch (a failing launch is the result, and the loop is not entered); and the
  whole run launches the editor exactly once, whatever the number of rounds.
\<close>

theorem C8_editor_once_before_first_prompt:
  assumes "cherrypick w = Inr (cfs, us, True)"
    and "notAutoFixed w options cfs tb"
    and "getCommitsWithoutBackports w (take 50 (map relative cfs)) = Inr hints"
    and "interactive options"
    and "editor options = Some ed" and "ed \<noteq> []"
  shows "\<exists>pre s'. trace s' = trace s @ pre @ [SpawnPromise ed [getRepoPath w options] (cwd options)] \<and>
           confirms s' = confirms s \<and> queries s' = queries s \<and>
           prompts pre = [] \<and> editorLaunches pre = [] \<and>
           cherrypickAndHandleConflicts w options commit author tb s =
             (case spawnPromise w of
                Inl e \<Rightarrow> (Inl e, s')
              | Inr u \<Rightarrow> listConflictingAndUnstagedFiles w 0 (map absolute cfs) us s') \<and>
           editorLaunches (trace (snd (cherrypickAndHandleConflicts w options commit author tb s))) =
             editorLaunches (trace s) @ [(ed, [getRepoPath w options], cwd options)]"
proof -
  from unresolved_entry [OF assms(1,2), of commit author s] obtain pre where
    pre: "quiet pre"
      "cherrypickAndHandleConflicts w options commit author tb s =
         handleUnresolvedConflicts w options tb (getRepoPath w options) cfs us (s\<lparr>trace := trace s @ pre\<rparr>)"
    by blast
  from unresolved_interactive [OF assms(3,4), of tb "getRepoPath w options" us "s\<lparr>trace := trace s @ pre\<rparr>"]
  obtain logs where
    logs: "prompts logs = []" "editorLaunches logs = []"
      "handleUnresolvedConflicts w options tb (getRepoPath w options) cfs us (s\<lparr>trace := trace s @ pre\<rparr>) =
         (case truthyString (editor options) of
            None \<Rightarrow>
              listConflictingAndUnstagedFiles w 0 (map absolute cfs) us
                (s\<lparr>trace := trace s @ pre\<rparr>
                   \<lparr>trace := trace (s\<lparr>trace := trace s @ pre\<rparr>) @
                      GetCommitsWithoutBackports (take 50 (map relative cfs)) # logs\<rparr>)
          | Some ed \<Rightarrow>
              (case spawnPromise w of
                 Inl e \<Rightarrow>
                   (Inl e, s\<lparr>trace := trace s @ pre\<rparr>
                      \<lparr>trace := trace (s\<lparr>trace := trace s @ pre\<rparr>) @
                         GetCommitsWithoutBackports (take 50 (map relative cfs)) # logs @
                         [SpawnPromise ed [getRepoPath w options] (cwd options)]\<rparr>)
               | Inr u \<Rightarrow>
                   listConflictingAndUnstagedFiles w 0 (map absolute cfs) us
                     (s\<lparr>trace := trace s @ pre\<rparr>
                        \<lparr>trace := trace (s\<lparr>trace := trace s @ pre\<rparr>) @
                           GetCommitsWithoutBackports (take 50 (map relative cfs)) # logs @
                           [SpawnPromise ed [getRepoPath w options] (cwd options)]\<rparr>)))"
    by blast
  let ?pre = "pre @ GetCommitsWithoutBackports (take 50 (map relative cfs)) # logs"
  let ?s' = "s\<lparr>trace := trace s @ ?pre @ [SpawnPromise ed [getRepoPath w options] (cwd options)]\<rparr>"
  have eq: "cherrypickAndHandleConflicts w options commit author tb s =
             (case spawnPromise w of
                Inl e \<Rightarrow> (Inl e, ?s')
              | Inr u \<Rightarrow> listConflictingAndUnstagedFiles w 0 (map absolute cfs) us ?s')"
    unfolding pre(2) logs(3) using assms(5,6) by (simp add: truthyString_def split: sum.splits)
  have q: "prompts ?pre = []" "editorLaunches ?pre = []"
    using pre(1) logs(1,2) by (simp_all add: quiet_def)
  have once: "editorLaunches (trace (snd (cherrypickAndHandleConflicts w options commit author tb s))) =
             editorLaunches (trace s) @ [(ed, [getRepoPath w options], cwd options)]"
  proof (cases "spawnPromise w")
    case (Inl e)
    then show ?thesis using eq q(2) by simp
  next
    case (Inr u)
    from loop_trace [of w 0 "map absolute cfs" us ?s'] obtain evs where
      evs: "trace (snd (listConflictingAndUnstagedFiles w 0 (map absolute cfs) us ?s')) = trace ?s' @ evs"
        "list_all loopEvent evs" by blast
    have "editorLaunches evs = []" using loopEvents_quiet [OF evs(2)] by simp
    then show ?thesis using eq Inr evs(1) q(2) by simp
  qed
  have "trace ?s' = trace s @ ?pre @ [SpawnPromise ed [getRepoPath w options] (cwd options)]"
    "confirms ?s' = confirms s" "queries ?s' = queries s"
    by simp_all
  with eq q once show ?thesis by blast
qed

text \<open>The editor \<open>code\<close> on the conflict of \<open>a.go\<close> and \<open>b.go\<close>.\<close>

theorem C8_witness:
  "editorLaunches (trace (snd (cherrypickAndHandleConflicts conflictWorld
       (interactiveOptions\<lparr>editor := Some ''code''\<rparr>) abc123 dev ''7.x'' s0))) =
     [(''code'', [''/repo''], ''/home/dev'')] \<and>
   (\<exists>pre s'. trace s' = pre @ [SpawnPromise ''code'' [''/repo''] ''/home/dev''] \<and>
      prompts pre = [] \<and>
      cherrypickAndHandleConflicts conflictWorld
        (interactiveOptions\<lparr>editor := Some ''code''\<rparr>) abc123 dev ''7.x'' s0 =
      listConflictingAndUnstagedFiles conflictWorld 0 [''/repo/a.go'', ''/repo/b.go''] [] s')"
proof -
  let ?options = "interactiveOptions\<lparr>editor := Some ''code''\<rparr>"
  have 1: "cherrypick conflictWorld = Inr ([a_go, b_go], [], True)"
    and 2: "notAutoFixed conflictWorld ?options [a_go, b_go] ''7.x''"
    and 3: "getCommitsWithoutBackports conflictWorld (take 50 (map relative [a_go, b_go])) = Inr []"
    and 4: "interactive ?options"
    and 5: "editor ?options = Some ''code''"
    and 6: "''code'' \<noteq> []"
    by (simp_all add: conflictWorld_def idleWorld_def interactiveOptions_def notAutoFixed_def)
  have 7: "spawnPromise conflictWorld = Inr ()" "getRepoPath conflictWorld ?options = ''/repo''"
    "cwd ?options = ''/home/dev''" "trace s0 = []" "map absolute [a_go, b_go] = [''/repo/a.go'', ''/repo/b.go'']"
    by (simp_all add: conflictWorld_def idleWorld_def interactiveOptions_def s0_def a_go_def b_go_def)
  from C8_editor_once_before_first_prompt [OF 1 2 3 4 5 6, of s0 abc123 dev]
  show ?thesis unfolding 7 by auto
qed

subsection \<open>C9: the orchestrator rethrows unchanged\<close>

text \<open>
  C9. An exception of the cherry-pick primitive or of conflict handling is the result of
  \<open>waitForCherrypick\<close>, unchanged and with no further call; when conflict handling returns
  normally, \<open>commitChanges\<close> is called next and its outcome, exception included, is the
  result. Every exception of \<open>waitForCherrypick\<close> is one of these two.
\<close>

theorem C9_orchestrator_rethrows_unchanged:
  "(cherrypick w = Inl e \<longrightarrow> fst (waitForCherrypick w options commit tb s) = Inl e) \<and>
   (fst (cherrypickAndHandleConflicts w options commit (getCommitAuthor w options commit) tb
           (startedCherrypick w options commit s)) = Inl e \<longrightarrow>
      waitForCherrypick w options commit tb s =
        (Inl e, snd (cherrypickAndHandleConflicts w options commit (getCommitAuthor w options commit) tb
                       (startedCherrypick w options commit s)))) \<and>
   (fst (cherrypickAndHandleConflicts w options commit (getCommitAuthor w options commit) tb
           (startedCherrypick w options commit s)) = Inr () \<longrightarrow>
      fst (waitForCherrypick w options commit tb s) = commitChanges w \<and>
      trace (snd (waitForCherrypick w options commit tb s)) =
        trace (snd (cherrypickAndHandleConflicts w options commit (getCommitAuthor w options commit) tb
                      (startedCherrypick w options commit s))) @
        [CommitChanges (getCommitAuthor w options commit),
         if commitChanges w = Inr () then OraSucceed CherrypickSpinner else OraFail CherrypickSpinner]) \<and>
   (fst (waitForCherrypick w options commit tb s) = Inl e \<longrightarrow>
      fst (cherrypickAndHandleConflicts w options commit (getCommitAuthor w options commit) tb
             (startedCherrypick w options commit s)) = Inl e \<or>
      fst (cherrypickAndHandleConflicts w options commit (getCommitAuthor w options commit) tb
             (startedCherrypick w options commit s)) = Inr () \<and> commitChanges w = Inl e)"
proof -
  obtain h s2 where H: "cherrypickAndHandleConflicts w options commit (getCommitAuthor w options commit) tb
           (startedCherrypick w options commit s) = (h, s2)"
    by (cases "cherrypickAndHandleConflicts w options commit (getCommitAuthor w options commit) tb
           (startedCherrypick w options commit s)")
  have a: "cherrypick w = Inl e \<longrightarrow> h = Inl e"
    using H by (auto simp: cherrypickAndHandleConflicts_def Let_def)
  have W: "waitForCherrypick w options commit tb s =
        (case h of
           Inl e \<Rightarrow> (Inl e, s2)
         | Inr u \<Rightarrow>
             (case commitChanges w of
                Inl e \<Rightarrow> (Inl e, emit (OraFail CherrypickSpinner)
                                     (emit (CommitChanges (getCommitAuthor w options commit)) s2))
              | Inr u' \<Rightarrow> (Inr (), emit (OraSucceed CherrypickSpinner)
                                     (emit (CommitChanges (getCommitAuthor w options commit)) s2))))"
    using H by (simp add: waitForCherrypick_def startedCherrypick_def Let_def split: sum.splits)
  show ?thesis
    unfolding H W using a by (auto simp: emit_def split: sum.splits)
qed

text \<open>A failing cherry-pick, and a clean cherry-pick followed by a failing commit.\<close>

theorem C9_witness:
  "fst (waitForCherrypick (idleWorld\<lparr>cherrypick := Inl (Thrown ''git: command not found'')\<rparr>)
          interactiveOptions abc123 ''7.x'' s0) = Inl (Thrown ''git: command not found'') \<and>
   fst (waitForCherrypick (idleWorld\<lparr>commitChanges := Inl (Thrown ''nothing to commit'')\<rparr>)
          interactiveOptions abc123 ''7.x'' s0) = Inl (Thrown ''nothing to commit'')"
proof -
  have 1: "cherrypick (idleWorld\<lparr>cherrypick := Inl (Thrown ''git: command not found'')\<rparr>) =
             Inl (Thrown ''git: command not found'')"
    by simp
  have 2: "fst (cherrypickAndHandleConflicts (idleWorld\<lparr>commitChanges := Inl (Thrown ''nothing to commit'')\<rparr>)
             interactiveOptions abc123
             (getCommitAuthor (idleWorld\<lparr>commitChanges := Inl (Thrown ''nothing to commit'')\<rparr>)
                interactiveOptions abc123) ''7.x''
             (startedCherrypick (idleWorld\<lparr>commitChanges := Inl (Thrown ''nothing to commit'')\<rparr>)
                interactiveOptions abc123 s0)) = Inr ()"
    by (simp add: cherrypickAndHandleConflicts_def idleWorld_def Let_def)
  show ?thesis
    using C9_orchestrator_rethrows_unchanged
            [of "idleWorld\<lparr>cherrypick := Inl (Thrown ''git: command not found'')\<rparr>"
                "Thrown ''git: command not found''" interactiveOptions abc123 "''7.x''" s0]
          C9_orchestrator_rethrows_unchanged
            [of "idleWorld\<lparr>commitChanges := Inl (Thrown ''nothing to commit'')\<rparr>"
                "Thrown ''nothing to commit''" interactiveOptions abc123 "''7.x''" s0]
          1 2
    by simp
qed

subsection \<open>C10: adding labels never throws\<close>

text \<open>
  C10. \<open>addLabelsToPullRequest\<close> returns normally for every input. When the construction
  of the client or the add-labels request throws, the last two calls are the failure of the
  spinner and the error log carrying the exception; otherwise the last call is the success
  of the spinner.
\<close>

theorem C10_addLabels_never_throws:
  "fst (addLabelsToPullRequest w options pullNumber labels s) = Inr () \<and>
   (newOctokit w = Inl e \<or> newOctokit w = Inr () \<and> addLabels w = Inl e \<longrightarrow>
      (\<exists>pre. trace (snd (addLabelsToPullRequest w options pullNumber labels s)) =
         trace s @ pre @
         [OraFail LabelSpinner,
          LoggerError (''Could not add labels to PR '' @ string_of_nat pullNumber) e])) \<and>
   (newOctokit w = Inr () \<and> addLabels w = Inr () \<longrightarrow>
      (\<exists>pre. trace (snd (addLabelsToPullRequest w options pullNumber labels s)) =
         trace s @ pre @ [OraSucceed LabelSpinner]))"
  by (auto simp: addLabelsToPullRequest_def Let_def emit_def split: sum.splits)

text \<open>The add-labels request of pull request 42 is rejected.\<close>

theorem C10_witness:
  "fst (addLabelsToPullRequest (idleWorld\<lparr>addLabels := Inl (Thrown ''HttpError: Not Found'')\<rparr>)
          interactiveOptions 42 [''backport'', ''v7.x''] s0) = Inr () \<and>
   (\<exists>pre. trace (snd (addLabelsToPullRequest (idleWorld\<lparr>addLabels := Inl (Thrown ''HttpError: Not Found'')\<rparr>)
          interactiveOptions 42 [''backport'', ''v7.x''] s0)) =
      pre @ [OraFail LabelSpinner,
             LoggerError ''Could not add labels to PR 42'' (Thrown ''HttpError: Not Found'')])"
  using C10_addLabels_never_throws
          [of "idleWorld\<lparr>addLabels := Inl (Thrown ''HttpError: Not Found'')\<rparr>" interactiveOptions 42
              "[''backport'', ''v7.x'']" s0 "Thrown ''HttpError: Not Found''"]
  by (simp add: idleWorld_def s0_def string_of_nat_42)

end
